theory Spec2Isabelle
  imports Main "HOL-Library.Multiset" "HOL-Library.Sublist"
begin

unbundle bit_operations_syntax

section \<open>Runtime types and values seen by the container checker\<close>

text \<open>
  The checker of \<^verbatim>\<open>assert/assert.go\<close> inspects its two \<^verbatim>\<open>interface{}\<close> arguments
  through Go's \<^verbatim>\<open>reflect\<close> package.  A \<^verbatim>\<open>reflect.Type\<close> is modelled by the datatype
  \<open>gotype\<close>; a nil \<^verbatim>\<open>reflect.Type\<close> (what \<^verbatim>\<open>reflect.TypeOf(nil)\<close> returns) is \<open>None\<close>
  of \<open>gotype option\<close>.  Calling a method on the nil interface, and the reflect operations
  used outside their domain, panic; a panic is the \<open>Inl\<close> branch of a sum.
\<close>

datatype ChanDir = RecvDir | SendDir | BothDir

datatype Kind =
    KBool | KInt | KFloat64 | KString | KStruct | KInterface | KFunc
  | KPtr | KMap | KArray | KSlice | KChan

datatype gotype =
    TBool | TInt | TFloat64 | TString | TStruct string | TInterface | TFunc
  | TPtr gotype
  | TMap gotype gotype
  | TArray nat gotype
  | TSlice gotype
  | TChan ChanDir gotype

datatype panic = NilPointerDereference | ReflectPanic

fun KindOf :: "gotype \<Rightarrow> Kind" where
  "KindOf TBool = KBool"
| "KindOf TInt = KInt"
| "KindOf TFloat64 = KFloat64"
| "KindOf TString = KString"
| "KindOf (TStruct n) = KStruct"
| "KindOf TInterface = KInterface"
| "KindOf TFunc = KFunc"
| "KindOf (TPtr e) = KPtr"
| "KindOf (TMap k e) = KMap"
| "KindOf (TArray n e) = KArray"
| "KindOf (TSlice e) = KSlice"
| "KindOf (TChan d e) = KChan"

fun KindString :: "Kind \<Rightarrow> string" where
  "KindString KBool = ''bool''"
| "KindString KInt = ''int''"
| "KindString KFloat64 = ''float64''"
| "KindString KString = ''string''"
| "KindString KStruct = ''struct''"
| "KindString KInterface = ''interface''"
| "KindString KFunc = ''func''"
| "KindString KPtr = ''ptr''"
| "KindString KMap = ''map''"
| "KindString KArray = ''array''"
| "KindString KSlice = ''slice''"
| "KindString KChan = ''chan''"

text \<open>\<^verbatim>\<open>Type.Elem()\<close> panics unless the kind is Array, Chan, Map, Ptr or Slice.\<close>

fun Elem :: "gotype \<Rightarrow> panic + gotype" where
  "Elem (TPtr e) = Inr e"
| "Elem (TMap k e) = Inr e"
| "Elem (TArray n e) = Inr e"
| "Elem (TSlice e) = Inr e"
| "Elem (TChan d e) = Inr e"
| "Elem t = Inl ReflectPanic"

text \<open>\<^verbatim>\<open>reflect.RecvDir = 1\<close>, \<^verbatim>\<open>reflect.SendDir = 2\<close>, \<^verbatim>\<open>reflect.BothDir = 3\<close>.\<close>

fun dirBits :: "ChanDir \<Rightarrow> nat" where
  "dirBits RecvDir = 1"
| "dirBits SendDir = 2"
| "dirBits BothDir = 3"

text \<open>\<^verbatim>\<open>Type.ChanDir()\<close> panics unless the kind is Chan.\<close>

fun ChanDirOf :: "gotype \<Rightarrow> panic + ChanDir" where
  "ChanDirOf (TChan d e) = Inr d"
| "ChanDirOf t = Inl ReflectPanic"

text \<open>
  A channel holds the values a receive can take at once (its buffer, in send order) and
  whether it was closed.  The values handed to the checker are: the untyped nil, two
  non-container values, an array \<^verbatim>\<open>[n]T\<close>, a slice \<^verbatim>\<open>[]T\<close> (\<open>None\<close> is the nil slice) and
  a channel (\<open>None\<close> is the nil channel).  Elements stay abstract (\<open>'a\<close>).
\<close>

record 'a chan =
  buffer :: "'a list"
  closed :: bool

datatype 'a goval =
    UntypedNil
  | IntVal int
  | StringVal string
  | ArrayVal gotype "'a list"
  | SliceVal gotype "'a list option"
  | ChanVal ChanDir gotype "'a chan option"

fun TypeOf :: "'a goval \<Rightarrow> gotype option" where
  "TypeOf UntypedNil = None"
| "TypeOf (IntVal i) = Some TInt"
| "TypeOf (StringVal s) = Some TString"
| "TypeOf (ArrayVal e xs) = Some (TArray (length xs) e)"
| "TypeOf (SliceVal e xs) = Some (TSlice e)"
| "TypeOf (ChanVal d e c) = Some (TChan d e)"

section \<open>Library primitives\<close>

text \<open>
  The standard-library functions the checker calls on elements are parameters of the
  model: \<^verbatim>\<open>reflect.DeepEqual\<close> on two elements, \<^verbatim>\<open>Type().Name()\<close> of an element,
  \<^verbatim>\<open>fmt.Sprintf("%+v", v)\<close> for a \<^verbatim>\<open>reflect.Value\<close> holding the element, the rendering of
  the element inside \<^verbatim>\<open>fmt.Sprintf("%+v", s)\<close> for an \<^verbatim>\<open>[]interface{}\<close>, and strconv's
  \<^verbatim>\<open>CanBackquote\<close> and \<^verbatim>\<open>Quote\<close>.
\<close>

record 'a lib =
  DeepEqual :: "'a \<Rightarrow> 'a \<Rightarrow> bool"
  TypeName :: "'a \<Rightarrow> string"
  SprintfPlusV :: "'a \<Rightarrow> string"
  SprintfPlusVElem :: "'a \<Rightarrow> string"
  CanBackquote :: "string \<Rightarrow> bool"
  Quote :: "string \<Rightarrow> string"

text \<open>\<^verbatim>\<open>strings.Join\<close>.\<close>

fun Join :: "string list \<Rightarrow> string \<Rightarrow> string" where
  "Join [] sep = ''''"
| "Join [x] sep = x"
| "Join (x # y # ys) sep = x @ sep @ Join (y # ys) sep"

text \<open>\<^verbatim>\<open>%d\<close> of a length.\<close>

function itoa :: "nat \<Rightarrow> string" where
  "itoa n = (if n < 10 then [''0123456789'' ! n] else itoa (n div 10) @ [''0123456789'' ! (n mod 10)])"
  by pat_completeness auto
termination
  by (relation "measure id") auto

declare itoa.simps [simp del]

section \<open>stringify\<close>

text \<open>
  The operand of \<^verbatim>\<open>stringify(i interface{})\<close>, by its dynamic type: a string, a
  \<^verbatim>\<open>*string\<close> (\<open>None\<close> is the nil pointer), a \<^verbatim>\<open>reflect.Value\<close> holding an element, or an
  \<^verbatim>\<open>[]interface{}\<close> of elements.  The last two fall to the \<^verbatim>\<open>default\<close> branch of the type
  switch, \<^verbatim>\<open>fmt.Sprintf("%+v", i)\<close>, which prints a slice as its elements between brackets,
  separated by one space.
\<close>

datatype 'a iface =
    IString string
  | IStringPtr "string option"
  | IReflectValue 'a
  | IIfaceSlice "'a list"

definition backquoteOrQuote :: "'a lib \<Rightarrow> string \<Rightarrow> string" where
  "backquoteOrQuote L s = (if CanBackquote L s then [CHR 0x60] @ s @ [CHR 0x60] else Quote L s)"

fun stringify :: "'a lib \<Rightarrow> 'a iface \<Rightarrow> string" where
  "stringify L (IString t) = backquoteOrQuote L t"
| "stringify L (IStringPtr None) = ''<nil>''"
| "stringify L (IStringPtr (Some t)) = backquoteOrQuote L t"
| "stringify L (IReflectValue v) = SprintfPlusV L v"
| "stringify L (IIfaceSlice vs) = ''['' @ Join (map (SprintfPlusVElem L) vs) '' '' @ '']''"

section \<open>checkContainerTypes\<close>

text \<open>
  \<^verbatim>\<open>testing.TB\<close> is the list of the errors reported so far; \<^verbatim>\<open>t.Errorf\<close> appends one.
  The four messages of \<^verbatim>\<open>checkContainerTypes\<close> keep their arguments; \<open>Errorf\<close> is the
  call \<^verbatim>\<open>tr.Errorf(msg)\<close> of \<^verbatim>\<open>HasSameElements\<close>, kept with the message it is given
  (the stack trace that \<^verbatim>\<open>TracingTB\<close> appends is left out).
\<close>

datatype report =
    NonReceivingChannel gotype
  | NotArraySliceOrChan gotype
  | WantNotArrayOrSlice gotype gotype gotype
  | ContainedTypesDoNotMatch gotype gotype
  | Errorf string

type_synonym TB = "report list"

text \<open>The part of \<^verbatim>\<open>checkContainerTypes\<close> after the \<^verbatim>\<open>switch gotKind\<close>.\<close>

definition checkWantAndElem :: "TB \<Rightarrow> gotype \<Rightarrow> gotype \<Rightarrow> panic + (bool \<times> TB)" where
  "checkWantAndElem t gotType wantType =
    (let wantKind = KindOf wantType in
     if wantKind \<noteq> KArray \<and> wantKind \<noteq> KSlice then
       (case Elem gotType of
          Inl p \<Rightarrow> Inl p
        | Inr gotElem \<Rightarrow> Inr (False, t @ [WantNotArrayOrSlice gotType gotElem wantType]))
     else
       (case Elem gotType of
          Inl p \<Rightarrow> Inl p
        | Inr gotElem \<Rightarrow>
            (case Elem wantType of
               Inl p \<Rightarrow> Inl p
             | Inr wantElem \<Rightarrow>
                 if gotElem \<noteq> wantElem then
                   Inr (False, t @ [ContainedTypesDoNotMatch gotType wantType])
                 else Inr (True, t))))"

fun checkContainerTypes :: "TB \<Rightarrow> gotype option \<Rightarrow> gotype option \<Rightarrow> panic + (bool \<times> TB)" where
  "checkContainerTypes t None wantType = Inl NilPointerDereference"
| "checkContainerTypes t (Some gotType) None = Inl NilPointerDereference"
| "checkContainerTypes t (Some gotType) (Some wantType) =
    (case KindOf gotType of
       KArray \<Rightarrow> checkWantAndElem t gotType wantType
     | KSlice \<Rightarrow> checkWantAndElem t gotType wantType
     | KChan \<Rightarrow>
         (case ChanDirOf gotType of
            Inl p \<Rightarrow> Inl p
          | Inr d \<Rightarrow>
              if dirBits d AND dirBits RecvDir = 0 then
                Inr (False, t @ [NonReceivingChannel gotType])
              else checkWantAndElem t gotType wantType)
     | _ \<Rightarrow> Inr (False, t @ [NotArraySliceOrChan gotType]))"

section \<open>assertSameArray\<close>

text \<open>
  A \<^verbatim>\<open>[]reflect.Value\<close> is a list of elements or nil (\<open>None\<close>); \<^verbatim>\<open>len\<close> and \<^verbatim>\<open>range\<close>
  read nil as the empty slice.
\<close>

fun len :: "'a list option \<Rightarrow> nat" where
  "len None = 0"
| "len (Some xs) = length xs"

fun elems :: "'a list option \<Rightarrow> 'a list" where
  "elems None = []"
| "elems (Some xs) = xs"

text \<open>
  The inner loop \<^verbatim>\<open>for _, wantIndex := range unusedWantIndicies\<close>: the first entry other
  than \<open>-1\<close> whose wanted value is deeply equal to \<open>v\<close>, or \<open>None\<close> when the loop ends
  without a \<^verbatim>\<open>break\<close>.
\<close>

fun scanWant :: "'a lib \<Rightarrow> 'a \<Rightarrow> 'a list \<Rightarrow> int list \<Rightarrow> int option" where
  "scanWant L v wantValue [] = None"
| "scanWant L v wantValue (wantIndex # rest) =
    (if wantIndex \<noteq> -1 \<and> DeepEqual L v (wantValue ! nat wantIndex) then Some wantIndex
     else scanWant L v wantValue rest)"

text \<open>
  The outer loop \<^verbatim>\<open>for gotIndex, v := range gotValue\<close>, from index \<open>gotIndex\<close> on, over the
  two index slices.
\<close>

fun matchLoop :: "'a lib \<Rightarrow> 'a list \<Rightarrow> nat \<Rightarrow> 'a list \<Rightarrow> int list \<times> int list \<Rightarrow> int list \<times> int list" where
  "matchLoop L wantValue gotIndex [] st = st"
| "matchLoop L wantValue gotIndex (v # rest) (unusedGotIndicies, unusedWantIndicies) =
    (case scanWant L v wantValue unusedWantIndicies of
       None \<Rightarrow> matchLoop L wantValue (Suc gotIndex) rest (unusedGotIndicies, unusedWantIndicies)
     | Some wantIndex \<Rightarrow>
         matchLoop L wantValue (Suc gotIndex) rest
           (unusedGotIndicies[gotIndex := -1], unusedWantIndicies[nat wantIndex := -1]))"

definition unusedIndicies :: "'a lib \<Rightarrow> 'a list \<Rightarrow> 'a list \<Rightarrow> int list \<times> int list" where
  "unusedIndicies L gotValue wantValue =
     matchLoop L wantValue 0 gotValue
       (map int [0..<length gotValue], map int [0..<length wantValue])"

text \<open>The loops that collect \<^verbatim>\<open>extra\<close> and \<^verbatim>\<open>missing\<close> from the entries other than \<open>-1\<close>.\<close>

definition collect :: "'a list \<Rightarrow> int list \<Rightarrow> 'a list" where
  "collect vs unused = map (\<lambda>i. vs ! nat i) (filter (\<lambda>i. i \<noteq> -1) unused)"

definition extraOf :: "'a lib \<Rightarrow> 'a list \<Rightarrow> 'a list \<Rightarrow> 'a list" where
  "extraOf L gotValue wantValue = collect gotValue (fst (unusedIndicies L gotValue wantValue))"

definition missingOf :: "'a lib \<Rightarrow> 'a list \<Rightarrow> 'a list \<Rightarrow> 'a list" where
  "missingOf L gotValue wantValue = collect wantValue (snd (unusedIndicies L gotValue wantValue))"

text \<open>The number of cancelled pairs: the got indices overwritten with \<open>-1\<close>.\<close>

definition matchedCount :: "'a lib \<Rightarrow> 'a list \<Rightarrow> 'a list \<Rightarrow> nat" where
  "matchedCount L gotValue wantValue =
     length (filter (\<lambda>i. i = -1) (fst (unusedIndicies L gotValue wantValue)))"

definition valueStr :: "'a lib \<Rightarrow> 'a \<Rightarrow> string" where
  "valueStr L gv = ''('' @ TypeName L gv @ '') '' @ stringify L (IReflectValue gv)"

definition assertSameArray :: "'a lib \<Rightarrow> 'a list option \<Rightarrow> 'a list option \<Rightarrow> string" where
  "assertSameArray L gotValue wantValue =
    (let gotLen = len gotValue;
         wantLen = len wantValue;
         extra = extraOf L (elems gotValue) (elems wantValue);
         missing = missingOf L (elems gotValue) (elems wantValue)
     in
       if gotLen \<noteq> wantLen \<or> length extra > 0 \<or> length missing > 0 then
         (let missingStr =
                (if length missing > 0
                 then ''; missing elements: '' @ stringify L (IIfaceSlice missing) else '''');
              extraStr =
                (if length extra > 0
                 then ''; extra elements: '' @ stringify L (IIfaceSlice extra) else '''');
              gotValueStr = map (valueStr L) (elems gotValue);
              wantValueStr = map (valueStr L) (elems wantValue)
          in ''got ['' @ Join gotValueStr '', '' @ ''] (len '' @ itoa gotLen
               @ ''), wanted ['' @ Join wantValueStr '', '' @ ''] (len '' @ itoa wantLen
               @ '')'' @ missingStr @ extraStr)
       else '''')"

section \<open>arrayValues, the channel drain and HasSameElements\<close>

text \<open>
  \<^verbatim>\<open>arrayValues\<close>: a nil slice or channel gives nil; \<^verbatim>\<open>Value.IsNil\<close> panics on the zero
  Value and on an int or a string; \<^verbatim>\<open>Value.Len\<close> of a channel is the number of buffered
  values and \<^verbatim>\<open>Value.Index\<close> panics on a channel.
\<close>

fun arrayValues :: "'a goval \<Rightarrow> panic + 'a list option" where
  "arrayValues (ArrayVal e xs) = Inr (Some xs)"
| "arrayValues (SliceVal e None) = Inr None"
| "arrayValues (SliceVal e (Some xs)) = Inr (Some xs)"
| "arrayValues (ChanVal d e None) = Inr None"
| "arrayValues (ChanVal d e (Some c)) = (if buffer c = [] then Inr (Some []) else Inl ReflectPanic)"
| "arrayValues a = Inl ReflectPanic"

text \<open>
  \<^verbatim>\<open>Value.TryRecv\<close> never blocks.  It panics unless the value is a channel that can
  receive.  On a nil channel, and on a channel with nothing to take (open, where a receive
  would block, or closed), \<open>ok\<close> is false: the result \<open>None\<close>.  Otherwise it takes the
  oldest value out of the channel.
\<close>

fun TryRecv :: "'a goval \<Rightarrow> panic + ('a option \<times> 'a goval)" where
  "TryRecv (ChanVal d e None) =
     (if d = SendDir then Inl ReflectPanic else Inr (None, ChanVal d e None))"
| "TryRecv (ChanVal d e (Some c)) =
     (if d = SendDir then Inl ReflectPanic
      else (case buffer c of
              [] \<Rightarrow> Inr (None, ChanVal d e (Some c))
            | x # xs \<Rightarrow> Inr (Some x, ChanVal d e (Some (c\<lparr>buffer := xs\<rparr>)))))"
| "TryRecv a = Inl ReflectPanic"

fun available :: "'a goval \<Rightarrow> nat" where
  "available (ChanVal d e (Some c)) = length (buffer c)"
| "available a = 0"

lemma TryRecv_available:
  "TryRecv g = Inr (Some v, g') \<Longrightarrow> available g' < available g"
  by (cases g rule: TryRecv.cases) (auto split: if_splits list.splits)

text \<open>The loop \<^verbatim>\<open>for { v, ok := gotValue.TryRecv(); if !ok { break }; append }\<close>.\<close>

function drain :: "'a goval \<Rightarrow> 'a list \<Rightarrow> panic + ('a list \<times> 'a goval)" where
  "drain gotValue gotValueArray =
     (case TryRecv gotValue of
        Inl p \<Rightarrow> Inl p
      | Inr (None, gotValue') \<Rightarrow> Inr (gotValueArray, gotValue')
      | Inr (Some v, gotValue') \<Rightarrow> drain gotValue' (gotValueArray @ [v]))"
  by pat_completeness auto
termination
  by (relation "measure (\<lambda>(g, acc). available g)") (auto dest: TryRecv_available)

declare drain.simps [simp del]

text \<open>
  \<^verbatim>\<open>HasSameElements\<close> returns its verdict, the errors reported to \<open>t\<close>, and the got
  value as the call leaves it (a channel is drained).
\<close>

definition finish :: "TB \<Rightarrow> string \<Rightarrow> 'a goval \<Rightarrow> panic + (bool \<times> TB \<times> 'a goval)" where
  "finish tr msg got = (if msg \<noteq> '''' then Inr (False, tr @ [Errorf msg], got) else Inr (True, tr, got))"

definition HasSameElements :: "'a lib \<Rightarrow> TB \<Rightarrow> 'a goval \<Rightarrow> 'a goval \<Rightarrow> panic + (bool \<times> TB \<times> 'a goval)" where
  "HasSameElements L t got want =
    (let gotType = TypeOf got; wantType = TypeOf want in
     case checkContainerTypes t gotType wantType of
       Inl p \<Rightarrow> Inl p
     | Inr (False, tr) \<Rightarrow> Inr (False, tr, got)
     | Inr (True, tr) \<Rightarrow>
         (case arrayValues want of
            Inl p \<Rightarrow> Inl p
          | Inr wantValueArray \<Rightarrow>
              (case map_option KindOf gotType of
                 None \<Rightarrow> Inl NilPointerDereference
               | Some k \<Rightarrow>
                   if k = KArray \<or> k = KSlice then
                     (case arrayValues got of
                        Inl p \<Rightarrow> Inl p
                      | Inr gotValueArray \<Rightarrow>
                          finish tr (assertSameArray L gotValueArray wantValueArray) got)
                   else if k = KChan then
                     (case drain got [] of
                        Inl p \<Rightarrow> Inl p
                      | Inr (gotValueArray, got') \<Rightarrow>
                          finish tr (assertSameArray L (Some gotValueArray) wantValueArray) got')
                   else
                     finish tr (''internal error: unexpected kind '' @ KindString k) got)))"

section \<open>Elements of type int and of type string\<close>

text \<open>
  strconv's \<^verbatim>\<open>CanBackquote\<close> and \<^verbatim>\<open>Quote\<close> on strings of 7-bit ASCII characters: a string
  can be backquoted unless it holds a control character other than tab, a backquote or
  DEL; \<^verbatim>\<open>Quote\<close> escapes the double quote, the backslash and the control characters.
\<close>

definition asciiCanBackquote :: "string \<Rightarrow> bool" where
  "asciiCanBackquote s =
     list_all (\<lambda>c. (32 \<le> (of_char c :: nat) \<or> c = CHR 0x09) \<and> c \<noteq> CHR 0x60 \<and> c \<noteq> CHR 0x7F) s"

definition hexDigit :: "nat \<Rightarrow> char" where
  "hexDigit n = ''0123456789abcdef'' ! n"

definition asciiEscape :: "char \<Rightarrow> string" where
  "asciiEscape c =
     (if c = CHR 0x22 then [CHR 0x5C, CHR 0x22]
      else if c = CHR 0x5C then [CHR 0x5C, CHR 0x5C]
      else if 32 \<le> (of_char c :: nat) \<and> (of_char c :: nat) < 127 then [c]
      else if c = CHR 0x07 then [CHR 0x5C, CHR ''a'']
      else if c = CHR 0x08 then [CHR 0x5C, CHR ''b'']
      else if c = CHR 0x0C then [CHR 0x5C, CHR ''f'']
      else if c = CHR 0x0A then [CHR 0x5C, CHR ''n'']
      else if c = CHR 0x0D then [CHR 0x5C, CHR ''r'']
      else if c = CHR 0x09 then [CHR 0x5C, CHR ''t'']
      else if c = CHR 0x0B then [CHR 0x5C, CHR ''v'']
      else [CHR 0x5C, CHR ''x'', hexDigit (of_char c div 16), hexDigit (of_char c mod 16)])"

definition asciiQuote :: "string \<Rightarrow> string" where
  "asciiQuote s = [CHR 0x22] @ concat (map asciiEscape s) @ [CHR 0x22]"

text \<open>
  Elements of Go type \<^verbatim>\<open>int\<close>: deep equality is equality of the numbers, the type is named
  \<^verbatim>\<open>int\<close>, and \<^verbatim>\<open>%+v\<close> prints the decimal numeral.
\<close>

definition sprintInt :: "int \<Rightarrow> string" where
  "sprintInt i = (if i < 0 then ''-'' @ itoa (nat (- i)) else itoa (nat i))"

definition intLib :: "int lib" where
  "intLib = \<lparr> DeepEqual = (\<lambda>a b. a = b), TypeName = (\<lambda>a. ''int''),
              SprintfPlusV = sprintInt, SprintfPlusVElem = sprintInt,
              CanBackquote = asciiCanBackquote, Quote = asciiQuote \<rparr>"

text \<open>
  Elements of Go type \<^verbatim>\<open>string\<close>: deep equality is equality of the strings, the type is
  named \<^verbatim>\<open>string\<close>, and \<^verbatim>\<open>%+v\<close> prints the text of the string as it is.
\<close>

definition stringLib :: "string lib" where
  "stringLib = \<lparr> DeepEqual = (\<lambda>a b. a = b), TypeName = (\<lambda>a. ''string''),
                 SprintfPlusV = (\<lambda>s. s), SprintfPlusVElem = (\<lambda>s. s),
                 CanBackquote = asciiCanBackquote, Quote = asciiQuote \<rparr>"

text \<open>
  Elements of a Go func type \<^verbatim>\<open>func()\<close>: the nil func or a function at a code address.
  \<^verbatim>\<open>reflect.DeepEqual\<close> documents that func values are deeply equal if both are nil and
  otherwise are not deeply equal.  The type has no name, and \<^verbatim>\<open>%+v\<close> prints the address
  in hexadecimal after \<^verbatim>\<open>0x\<close>, or \<^verbatim>\<open><nil>\<close>.
\<close>

datatype gofunc = NilFunc | FuncAt nat

function hex :: "nat \<Rightarrow> string" where
  "hex n = (if n < 16 then [hexDigit n] else hex (n div 16) @ [hexDigit (n mod 16)])"
  by pat_completeness auto
termination
  by (relation "measure id") auto

declare hex.simps [simp del]

fun sprintFunc :: "gofunc \<Rightarrow> string" where
  "sprintFunc NilFunc = ''<nil>''"
| "sprintFunc (FuncAt a) = ''0x'' @ hex a"

definition funcLib :: "gofunc lib" where
  "funcLib = \<lparr> DeepEqual = (\<lambda>a b. a = NilFunc \<and> b = NilFunc), TypeName = (\<lambda>a. ''''),
               SprintfPlusV = sprintFunc, SprintfPlusVElem = sprintFunc,
               CanBackquote = asciiCanBackquote, Quote = asciiQuote \<rparr>"

section \<open>Notions used in the proofs\<close>

text \<open>
  An index slice holds, at position \<open>j\<close>, either \<open>j\<close> or the mark \<open>-1\<close>; \<open>used\<close> counts
  the marks.
\<close>

definition idxOk :: "int list \<Rightarrow> bool" where
  "idxOk us = (\<forall>j<length us. us ! j = -1 \<or> us ! j = int j)"

definition used :: "int list \<Rightarrow> nat" where
  "used us = length (filter (\<lambda>i. i = -1) us)"

text \<open>
  The matcher seen on the wanted elements alone: each got element deletes the first
  wanted element still present that it is deeply equal to; what is left after all of
  \<open>got\<close> is \<open>missing\<close>.
\<close>

fun delFirst :: "('a \<Rightarrow> bool) \<Rightarrow> 'a list \<Rightarrow> 'a list" where
  "delFirst p [] = []"
| "delFirst p (x # xs) = (if p x then xs else x # delFirst p xs)"

fun residual :: "('a \<Rightarrow> 'a \<Rightarrow> bool) \<Rightarrow> 'a list \<Rightarrow> 'a list \<Rightarrow> 'a list" where
  "residual deq [] ws = ws"
| "residual deq (g # gs) ws = residual deq gs (delFirst (deq g) ws)"

section \<open>The index slices of the matcher\<close>

lemma idxOk_init: "idxOk (map int [0..<n])"
  by (simp add: idxOk_def)

lemma idxOk_update:
  assumes "idxOk us"
  shows "idxOk (us[k := -1])"
  unfolding idxOk_def
proof (intro allI impI)
  fix j
  assume "j < length (us[k := -1])"
  with assms show "us[k := -1] ! j = -1 \<or> us[k := -1] ! j = int j"
    by (cases "j = k") (simp_all add: idxOk_def)
qed

lemma scanWant_Some:
  "scanWant L v wv us = Some wi \<Longrightarrow> wi \<in> set us \<and> wi \<noteq> -1 \<and> DeepEqual L v (wv ! nat wi)"
  by (induction us) (auto split: if_splits)

lemma idxOk_mem:
  assumes "idxOk us" and "wi \<in> set us" and "wi \<noteq> -1"
  shows "nat wi < length us \<and> us ! nat wi = wi"
proof -
  from assms(2) obtain k where k: "k < length us" "us ! k = wi"
    by (auto simp: in_set_conv_nth)
  with assms(1,3) have "wi = int k"
    by (auto simp: idxOk_def)
  with k show ?thesis by simp
qed

lemma used_update:
  "k < length us \<Longrightarrow> us ! k \<noteq> -1 \<Longrightarrow> used (us[k := -1]) = Suc (used us)"
proof (induction us arbitrary: k)
  case Nil
  then show ?case by simp
next
  case (Cons u us)
  then show ?case
    by (cases k) (auto simp: used_def)
qed

text \<open>
  What the outer loop keeps: both slices stay index slices of their lengths, and every
  \<^verbatim>\<open>break\<close> marks one fresh got index and one fresh want index.
\<close>

lemma matchLoop_inv:
  assumes "idxOk uw" and "idxOk ug"
    and "\<forall>j. gi \<le> j \<and> j < length ug \<longrightarrow> ug ! j = int j"
    and "gi + length rest \<le> length ug"
    and "matchLoop L wv gi rest (ug, uw) = (ug', uw')"
  shows "idxOk uw' \<and> idxOk ug' \<and> length ug' = length ug \<and> length uw' = length uw
         \<and> used ug' + used uw = used ug + used uw'"
  using assms
proof (induction rest arbitrary: gi ug uw)
  case Nil
  then show ?case by simp
next
  case (Cons v rest)
  show ?case
  proof (cases "scanWant L v wv uw")
    case None
    with Cons.prems have ml: "matchLoop L wv (Suc gi) rest (ug, uw) = (ug', uw')"
      by simp
    from Cons.prems have "\<forall>j. Suc gi \<le> j \<and> j < length ug \<longrightarrow> ug ! j = int j"
      and "Suc gi + length rest \<le> length ug"
      by auto
    from Cons.IH[OF Cons.prems(1) Cons.prems(2) this ml] show ?thesis .
  next
    case (Some wi)
    let ?ug = "ug[gi := -1]" and ?uw = "uw[nat wi := -1]"
    from Some Cons.prems have ml: "matchLoop L wv (Suc gi) rest (?ug, ?uw) = (ug', uw')"
      by simp
    from scanWant_Some[OF Some] idxOk_mem[OF Cons.prems(1)]
    have wi: "nat wi < length uw" "uw ! nat wi \<noteq> -1"
      by auto
    from Cons.prems have gi: "gi < length ug" "ug ! gi \<noteq> -1"
      by auto
    have a: "idxOk ?uw" "idxOk ?ug"
      using Cons.prems(1,2) by (simp_all add: idxOk_update)
    from Cons.prems have b: "\<forall>j. Suc gi \<le> j \<and> j < length ?ug \<longrightarrow> ?ug ! j = int j"
      and c: "Suc gi + length rest \<le> length ?ug"
      by auto
    from Cons.IH[OF a b c ml] used_update[OF wi] used_update[OF gi]
    show ?thesis by simp
  qed
qed

lemma unusedIndicies_inv:
  assumes "unusedIndicies L gv wv = (ug, uw)"
  shows "idxOk ug \<and> idxOk uw \<and> length ug = length gv \<and> length uw = length wv \<and> used ug = used uw"
proof -
  have u0: "used (map int [0..<n]) = 0" for n
    by (simp add: used_def filter_empty_conv)
  from matchLoop_inv[OF idxOk_init idxOk_init _ _ assms[unfolded unusedIndicies_def]] u0
  show ?thesis
    by simp
qed

lemma length_collect: "length (collect vs us) + used us = length us"
  unfolding collect_def used_def
  using sum_length_filter_compl[of "\<lambda>i. i = -1" us] by simp

lemma assertSameArray_empty_iff:
  "assertSameArray L gotValue wantValue = '''' \<longleftrightarrow>
     (len gotValue = len wantValue \<and> extraOf L (elems gotValue) (elems wantValue) = []
      \<and> missingOf L (elems gotValue) (elems wantValue) = [])"
  by (simp add: assertSameArray_def Let_def)

text \<open>
  The counts of the matcher: the cancelled pairs and the survivors of each side make up
  the side, and as many want indices are marked as got indices.
\<close>

lemma match_counts:
  "matchedCount L got want + length (extraOf L got want) = length got
   \<and> matchedCount L got want + length (missingOf L got want) = length want
   \<and> matchedCount L got want
       = length (filter (\<lambda>i. i = -1) (snd (unusedIndicies L got want)))"
proof -
  obtain ug uw where u: "unusedIndicies L got want = (ug, uw)"
    by (cases "unusedIndicies L got want")
  from unusedIndicies_inv[OF u]
  have inv: "length ug = length got" "length uw = length want" "used ug = used uw"
    by simp_all
  have e: "length (extraOf L got want) + used ug = length got"
    using length_collect[of got ug] inv by (simp add: extraOf_def u)
  have m: "length (missingOf L got want) + used uw = length want"
    using length_collect[of want uw] inv by (simp add: missingOf_def u)
  have c: "matchedCount L got want = used ug"
    by (simp add: matchedCount_def used_def u)
  have d: "used uw = length (filter (\<lambda>i. i = -1) (snd (unusedIndicies L got want)))"
    by (simp add: used_def u)
  show ?thesis
    using e m c d inv(3) by auto
qed

section \<open>The surviving elements keep their order\<close>

lemma idxOk_snoc:
  assumes "idxOk (us @ [u])"
  shows "idxOk us" and "u = -1 \<or> u = int (length us)"
proof -
  show "idxOk us"
    unfolding idxOk_def
  proof (intro allI impI)
    fix j assume j: "j < length us"
    with assms have "(us @ [u]) ! j = -1 \<or> (us @ [u]) ! j = int j"
      by (simp add: idxOk_def)
    with j show "us ! j = -1 \<or> us ! j = int j"
      by (simp add: nth_append)
  qed
  have "length us < length (us @ [u])"
    by simp
  with assms have "(us @ [u]) ! length us = -1 \<or> (us @ [u]) ! length us = int (length us)"
    unfolding idxOk_def by blast
  then show "u = -1 \<or> u = int (length us)"
    by simp
qed

lemma subseq_collect_take:
  "idxOk us \<Longrightarrow> length us \<le> length vs \<Longrightarrow> subseq (collect vs us) (take (length us) vs)"
proof (induction us rule: rev_induct)
  case Nil
  then show ?case by (simp add: collect_def)
next
  case (snoc u us)
  from idxOk_snoc[OF snoc.prems(1)] have ok: "idxOk us" and u: "u = -1 \<or> u = int (length us)"
    by simp_all
  from snoc.prems(2) have n: "length us < length vs" by simp
  then have t: "take (length (us @ [u])) vs = take (length us) vs @ [vs ! length us]"
    by (simp add: take_Suc_conv_app_nth)
  from snoc.IH[OF ok] n have ih: "subseq (collect vs us) (take (length us) vs)"
    by simp
  show ?case
  proof (cases "u = -1")
    case True
    then have "collect vs (us @ [u]) = collect vs us"
      by (simp add: collect_def)
    with ih t show ?thesis
      by (simp add: subseq_rev_drop_many)
  next
    case False
    with u have "collect vs (us @ [u]) = collect vs us @ [vs ! length us]"
      by (simp add: collect_def)
    with ih t show ?thesis
      by simp
  qed
qed

lemma subseq_collect:
  "idxOk us \<Longrightarrow> length us = length vs \<Longrightarrow> subseq (collect vs us) vs"
  using subseq_collect_take[of us vs] by simp

lemma subseq_extra_missing:
  "subseq (extraOf L got want) got \<and> subseq (missingOf L got want) want"
proof -
  obtain ug uw where u: "unusedIndicies L got want = (ug, uw)"
    by (cases "unusedIndicies L got want")
  from unusedIndicies_inv[OF u] show ?thesis
    by (simp add: extraOf_def missingOf_def u subseq_collect)
qed


section \<open>The matcher on the wanted elements\<close>

lemma idxOk_set: "idxOk us \<Longrightarrow> i \<in> set us \<Longrightarrow> i = -1 \<or> (0 \<le> i \<and> nat i < length us)"
  using idxOk_mem[of us i] by (auto simp: idxOk_def in_set_conv_nth)

lemma idxOk_distinct: "idxOk us \<Longrightarrow> distinct (filter (\<lambda>i. i \<noteq> -1) us)"
proof (induction us rule: rev_induct)
  case Nil
  then show ?case by simp
next
  case (snoc u us)
  from idxOk_snoc[OF snoc.prems] have ok: "idxOk us" and u: "u = -1 \<or> u = int (length us)"
    by simp_all
  have "u \<noteq> -1 \<Longrightarrow> u \<notin> set us"
    using idxOk_set[OF ok, of u] u by auto
  with snoc.IH[OF ok] show ?case
    by auto
qed

lemma idxOk_update_map:
  assumes "idxOk us" and "wi \<in> set us" and "wi \<noteq> -1"
  shows "us[nat wi := -1] = map (\<lambda>i. if i = wi then -1 else i) us"
proof (rule nth_equalityI)
  show "length (us[nat wi := -1]) = length (map (\<lambda>i. if i = wi then -1 else i) us)"
    by simp
next
  fix j
  assume "j < length (us[nat wi := -1])"
  then have j: "j < length us" by simp
  from idxOk_mem[OF assms] have w: "nat wi < length us" "us ! nat wi = wi"
    by simp_all
  from assms(1) j have uj: "us ! j = -1 \<or> us ! j = int j"
    by (simp add: idxOk_def)
  from assms(1) w(1) have "us ! nat wi = -1 \<or> us ! nat wi = int (nat wi)"
    unfolding idxOk_def by blast
  with w(2) assms(3) have "wi = int (nat wi)"
    by metis
  then have wi: "0 \<le> wi"
    by linarith
  show "us[nat wi := -1] ! j = map (\<lambda>i. if i = wi then -1 else i) us ! j"
  proof (cases "j = nat wi")
    case True
    with j w show ?thesis by simp
  next
    case False
    with uj wi have "us ! j \<noteq> wi"
      using assms(3) by auto
    with False j show ?thesis by simp
  qed
qed

lemma collect_scan_None:
  "scanWant L v wv us = None \<Longrightarrow> delFirst (DeepEqual L v) (collect wv us) = collect wv us"
  by (induction us) (auto simp: collect_def split: if_splits)

lemma collect_scan_Some:
  "scanWant L v wv us = Some wi \<Longrightarrow> distinct (filter (\<lambda>i. i \<noteq> -1) us) \<Longrightarrow>
   collect wv (map (\<lambda>i. if i = wi then -1 else i) us) = delFirst (DeepEqual L v) (collect wv us)"
proof (induction us)
  case Nil
  then show ?case by simp
next
  case (Cons u us)
  show ?case
  proof (cases "u \<noteq> -1 \<and> DeepEqual L v (wv ! nat u)")
    case True
    with Cons.prems have "wi = u" and "u \<notin> set us"
      by auto
    then have "map (\<lambda>i. if i = wi then -1 else i) us = us"
      by (intro map_idI) auto
    with True \<open>wi = u\<close> show ?thesis
      by (simp add: collect_def)
  next
    case False
    with Cons.prems have s: "scanWant L v wv us = Some wi"
      and d: "distinct (filter (\<lambda>i. i \<noteq> -1) us)"
      by (auto split: if_splits)
    from scanWant_Some[OF s] False have "u \<noteq> wi" 
      by auto
    with Cons.IH[OF s d] False show ?thesis
      by (auto simp: collect_def)
  qed
qed

lemma collect_matchLoop:
  "idxOk uw \<Longrightarrow>
   collect wv (snd (matchLoop L wv gi gs (ug, uw))) = residual (DeepEqual L) gs (collect wv uw)"
proof (induction gs arbitrary: gi ug uw)
  case Nil
  then show ?case by simp
next
  case (Cons v gs)
  show ?case
  proof (cases "scanWant L v wv uw")
    case None
    with Cons show ?thesis
      by (simp add: collect_scan_None)
  next
    case (Some wi)
    from scanWant_Some[OF Some] have m: "wi \<in> set uw" "wi \<noteq> -1"
      by simp_all
    have "collect wv (uw[nat wi := -1]) = delFirst (DeepEqual L v) (collect wv uw)"
      using collect_scan_Some[OF Some idxOk_distinct[OF Cons.prems]]
        idxOk_update_map[OF Cons.prems m] by simp
    with Cons.IH[of "uw[nat wi := -1]" "Suc gi" "ug[gi := -1]", OF idxOk_update[OF Cons.prems]] Some
    show ?thesis by simp
  qed
qed

lemma collect_init: "collect vs (map int [0..<length vs]) = vs"
  by (simp add: collect_def filter_map comp_def map_nth)

lemma missingOf_residual: "missingOf L gs ws = residual (DeepEqual L) gs ws"
  using collect_matchLoop[where uw = "map int [0..<length ws]" and wv = ws and L = L and gi = 0
      and gs = gs and ug = "map int [0..<length gs]", OF idxOk_init]
  by (simp add: missingOf_def unusedIndicies_def collect_init)

lemma set_delFirst: "set (delFirst p ws) \<subseteq> set ws"
  by (induction ws) auto

lemma length_filter_delFirst:
  assumes "\<exists>w\<in>set ws. p w"
    and "\<forall>w\<in>set ws. p w \<longrightarrow> q w = b"
  shows "length (filter q (delFirst p ws)) + (if b then 1 else 0) = length (filter q ws)"
  using assms
proof (induction ws)
  case Nil
  then show ?case by simp
next
  case (Cons a ws)
  show ?case
  proof (cases "p a")
    case True
    with Cons.prems(2) have "q a = b" by simp
    with True show ?thesis by simp
  next
    case False
    with Cons.prems have "\<exists>w\<in>set ws. p w" and "\<forall>w\<in>set ws. p w \<longrightarrow> q w = b"
      by auto
    from Cons.IH[OF this] False show ?thesis by simp
  qed
qed

lemma residual_Nil:
  assumes refl: "\<forall>x\<in>E. deq x x"
    and sym: "\<forall>x\<in>E. \<forall>y\<in>E. deq x y \<longrightarrow> deq y x"
    and trans: "\<forall>x\<in>E. \<forall>y\<in>E. \<forall>z\<in>E. deq x y \<longrightarrow> deq y z \<longrightarrow> deq x z"
    and "set gs \<subseteq> E" and "set ws \<subseteq> E"
    and "\<forall>x\<in>E. length (filter (deq x) gs) = length (filter (deq x) ws)"
  shows "residual deq gs ws = []"
  using assms(4-6)
proof (induction gs arbitrary: ws)
  case Nil
  have "\<forall>w. w \<notin> set ws"
  proof (intro allI notI)
    fix w
    assume w: "w \<in> set ws"
    with Nil refl have "deq w w" and "w \<in> E" by auto
    with Nil.prems(3) w have "filter (deq w) ws = []"
      by simp
    with w \<open>deq w w\<close> show False
      by (simp add: filter_empty_conv)
  qed
  then show ?case by simp
next
  case (Cons g gs)
  from Cons.prems have g: "g \<in> E" by simp
  with refl have "deq g g" by simp
  then have "0 < length (filter (deq g) (g # gs))" by simp
  with Cons.prems(3) g have "filter (deq g) ws \<noteq> []"
    by (metis length_greater_0_conv)
  then have ex: "\<exists>w\<in>set ws. deq g w"
    by (simp add: filter_empty_conv)
  let ?ws = "delFirst (deq g) ws"
  have sub: "set ?ws \<subseteq> E"
    using set_delFirst[of "deq g" ws] Cons.prems(2) by blast
  have cnt: "\<forall>x\<in>E. length (filter (deq x) gs) = length (filter (deq x) ?ws)"
  proof
    fix x assume x: "x \<in> E"
    have same: "\<forall>w\<in>set ws. deq g w \<longrightarrow> deq x w = deq x g"
    proof (intro ballI impI)
      fix w assume w: "w \<in> set ws" and gw: "deq g w"
      from w Cons.prems(2) have wE: "w \<in> E" by blast
      from sym g wE gw have wg: "deq w g" by blast
      show "deq x w = deq x g"
        using trans x wE g gw wg by blast
    qed
    from length_filter_delFirst[OF ex same]
    have "length (filter (deq x) ?ws) + (if deq x g then 1 else 0) = length (filter (deq x) ws)" .
    moreover from Cons.prems(3) x
    have "length (filter (deq x) (g # gs)) = length (filter (deq x) ws)" by blast
    ultimately show "length (filter (deq x) gs) = length (filter (deq x) ?ws)"
      by (simp split: if_splits)
  qed
  from Cons.prems(1) have "set gs \<subseteq> E" by simp
  from Cons.IH[OF this sub cnt] show ?case by simp
qed

lemma mset_eq_length_filter:
  "mset xs = mset ys \<Longrightarrow> length (filter p xs) = length (filter p ys)"
  by (metis mset_filter size_mset)

lemma permutation_equivalent:
  assumes "mset P = mset S"
    and "\<forall>x\<in>set S. DeepEqual L x x"
    and "\<forall>x\<in>set S. \<forall>y\<in>set S. DeepEqual L x y \<longrightarrow> DeepEqual L y x"
    and "\<forall>x\<in>set S. \<forall>y\<in>set S. \<forall>z\<in>set S. DeepEqual L x y \<longrightarrow> DeepEqual L y z \<longrightarrow> DeepEqual L x z"
  shows "assertSameArray L (Some S) (Some P) = ''''"
proof -
  from assms(1) have setP: "set P = set S"
    by (rule mset_eq_setD)
  from assms(1) have len: "length P = length S"
    by (rule mset_eq_length)
  have cnt: "\<forall>x\<in>set S. length (filter (DeepEqual L x) S) = length (filter (DeepEqual L x) P)"
    using mset_eq_length_filter[OF assms(1)] by simp
  have "residual (DeepEqual L) S P = []"
    by (rule residual_Nil[OF assms(2-4) _ _ cnt]) (simp_all add: setP)
  then have m: "missingOf L S P = []"
    by (simp add: missingOf_residual)
  from match_counts[of L S P]
  have "matchedCount L S P + length (extraOf L S P) = length S"
    and "matchedCount L S P + length (missingOf L S P) = length P"
    by blast+
  with m len have "extraOf L S P = []"
    by simp
  with m len show ?thesis
    by (simp add: assertSameArray_empty_iff)
qed

section \<open>Classification, extraction and the whole check\<close>

lemma recv_bits:
  "(dirBits d AND dirBits RecvDir = 0) = (d = SendDir)"
  "(dirBits d mod 2 = Suc 0) = (d \<noteq> SendDir)"
  "(dirBits d mod 2 = 0) = (d = SendDir)"
  "even (dirBits d) = (d = SendDir)"
  by (cases d; simp)+

lemma checkContainerTypes_ok_iff:
  "(checkContainerTypes t (Some g) (Some w) = Inr (True, t'))
    = ((KindOf g = KArray \<or> KindOf g = KSlice \<or> (\<exists>e. g = TChan RecvDir e) \<or> (\<exists>e. g = TChan BothDir e))
       \<and> (KindOf w = KArray \<or> KindOf w = KSlice) \<and> Elem g = Elem w \<and> t' = t)"
  by (cases g; cases w) (auto simp: checkWantAndElem_def recv_bits intro: ChanDir.exhaust)

lemma checkContainerTypes_sendonly:
  "checkContainerTypes t (Some (TChan SendDir e)) (Some w)
     = Inr (False, t @ [NonReceivingChannel (TChan SendDir e)])"
  by simp

lemma checkContainerTypes_got_other:
  "KindOf g \<noteq> KArray \<Longrightarrow> KindOf g \<noteq> KSlice \<Longrightarrow> KindOf g \<noteq> KChan \<Longrightarrow>
   checkContainerTypes t (Some g) (Some w) = Inr (False, t @ [NotArraySliceOrChan g])"
  by (cases g) simp_all

lemma checkContainerTypes_want_other:
  "KindOf g = KArray \<or> KindOf g = KSlice \<or> g = TChan RecvDir e \<or> g = TChan BothDir e \<Longrightarrow>
   Elem g = Inr ge \<Longrightarrow>
   KindOf w \<noteq> KArray \<Longrightarrow> KindOf w \<noteq> KSlice \<Longrightarrow>
   checkContainerTypes t (Some g) (Some w) = Inr (False, t @ [WantNotArrayOrSlice g ge w])"
  by (cases g) (auto simp: checkWantAndElem_def recv_bits)

lemma checkContainerTypes_mismatch:
  "KindOf g = KArray \<or> KindOf g = KSlice \<or> g = TChan RecvDir e \<or> g = TChan BothDir e \<Longrightarrow>
   KindOf w = KArray \<or> KindOf w = KSlice \<Longrightarrow>
   Elem g \<noteq> Elem w \<Longrightarrow>
   checkContainerTypes t (Some g) (Some w) = Inr (False, t @ [ContainedTypesDoNotMatch g w])"
  by (cases g; cases w) (auto simp: checkWantAndElem_def recv_bits intro: ChanDir.exhaust)

lemma checkContainerTypes_no_panic:
  "\<exists>b t'. checkContainerTypes t (Some g) (Some w) = Inr (b, t')"
  by (cases g; cases w) (auto simp: checkWantAndElem_def recv_bits intro: ChanDir.exhaust)

lemma drain_chan:
  "d \<noteq> SendDir \<Longrightarrow>
   drain (ChanVal d e (Some c)) acc = Inr (acc @ buffer c, ChanVal d e (Some (c\<lparr>buffer := []\<rparr>)))"
proof (induction "buffer c" arbitrary: c acc)
  case Nil
  then show ?case
    by (subst drain.simps) simp
next
  case (Cons x xs)
  from Cons.hyps(2) have b: "buffer c = x # xs" by simp
  have "drain (ChanVal d e (Some c)) acc = drain (ChanVal d e (Some (c\<lparr>buffer := xs\<rparr>))) (acc @ [x])"
    using Cons.prems b by (subst drain.simps) simp
  also have "\<dots> = Inr ((acc @ [x]) @ xs, ChanVal d e (Some (c\<lparr>buffer := xs, buffer := []\<rparr>)))"
    using Cons.hyps(1)[of "c\<lparr>buffer := xs\<rparr>" "acc @ [x]"] Cons.prems by simp
  finally show ?case
    using b by simp
qed

lemma drain_nil:
  "d \<noteq> SendDir \<Longrightarrow> drain (ChanVal d e None) acc = Inr (acc, ChanVal d e None)"
  by (subst drain.simps) simp

lemma unusedIndicies_Nil [simp]:
  "unusedIndicies L [] [] = ([], [])"
  by (simp add: unusedIndicies_def)

lemma assertSameArray_empty [simp]:
  "elems g = [] \<Longrightarrow> elems w = [] \<Longrightarrow> assertSameArray L g w = ''''"
  by (cases g; cases w) (simp_all add: assertSameArray_empty_iff extraOf_def missingOf_def collect_def)

lemma HasSameElements_chan:
  assumes "d \<noteq> SendDir"
    and "want = ArrayVal e ws \<or> want = SliceVal e (Some ws)"
  shows "HasSameElements L t (ChanVal d e (Some c)) want
         = finish t (assertSameArray L (Some (buffer c)) (Some ws)) (ChanVal d e (Some (c\<lparr>buffer := []\<rparr>)))"
  using assms
  by (cases d) (auto simp: HasSameElements_def checkWantAndElem_def drain_chan)

lemma HasSameElements_slices:
  assumes "got = ArrayVal e gs \<or> got = SliceVal e (Some gs)"
    and "want = ArrayVal e ws \<or> want = SliceVal e (Some ws)"
  shows "HasSameElements L t got want
         = finish t (assertSameArray L (Some gs) (Some ws)) got"
  using assms
  by (auto simp: HasSameElements_def checkWantAndElem_def)

text \<open>
  With a typed value on each side the check returns: the reflect operations are used
  inside their domains, and the drain of a channel ends.
\<close>

lemma drain_total:
  "d \<noteq> SendDir \<Longrightarrow> \<exists>xs g. drain (ChanVal d e c) [] = Inr (xs, g)"
  by (cases c) (simp_all add: drain_nil drain_chan)

lemma finish_total: "\<exists>b r g. finish t msg got = Inr (b, r, g)"
  by (auto simp: finish_def)

lemma HasSameElements_typed_total:
  assumes "got \<noteq> UntypedNil" and "want \<noteq> UntypedNil"
  shows "\<exists>b r g. HasSameElements L t got want = Inr (b, r, g)"
proof -
  from assms obtain gt wt where ty: "TypeOf got = Some gt" "TypeOf want = Some wt"
    by (cases got; cases want) auto
  from checkContainerTypes_no_panic[of t gt wt] obtain b r
    where c: "checkContainerTypes t (Some gt) (Some wt) = Inr (b, r)"
    by blast
  show ?thesis
  proof (cases b)
    case False
    with c ty show ?thesis
      by (auto simp: HasSameElements_def simp del: checkContainerTypes.simps)
  next
    case True
    with c checkContainerTypes_ok_iff[of t gt wt r]
    have g: "KindOf gt = KArray \<or> KindOf gt = KSlice \<or> (\<exists>e. gt = TChan RecvDir e) \<or> (\<exists>e. gt = TChan BothDir e)"
      and w: "KindOf wt = KArray \<or> KindOf wt = KSlice"
      by simp_all
    from w ty(2) obtain wva where wv: "arrayValues want = Inr wva"
      by (cases want rule: arrayValues.cases) auto
    from g show ?thesis
    proof (elim disjE exE)
      assume "KindOf gt = KArray"
      with ty(1) obtain gva where "arrayValues got = Inr gva"
        by (cases got rule: arrayValues.cases) auto
      with \<open>KindOf gt = KArray\<close> c True ty wv finish_total show ?thesis
        by (auto simp: HasSameElements_def simp del: checkContainerTypes.simps)
    next
      assume "KindOf gt = KSlice"
      with ty(1) obtain gva where "arrayValues got = Inr gva"
        by (cases got rule: arrayValues.cases) auto
      with \<open>KindOf gt = KSlice\<close> c True ty wv finish_total show ?thesis
        by (auto simp: HasSameElements_def simp del: checkContainerTypes.simps)
    next
      fix e assume gt: "gt = TChan RecvDir e"
      with ty(1) obtain ch where "got = ChanVal RecvDir e ch"
        by (cases got) auto
      with drain_total[of RecvDir e ch] obtain xs g' where "drain got [] = Inr (xs, g')"
        by auto
      with gt c True ty wv finish_total show ?thesis
        by (auto simp: HasSameElements_def simp del: checkContainerTypes.simps)
    next
      fix e assume gt: "gt = TChan BothDir e"
      with ty(1) obtain ch where "got = ChanVal BothDir e ch"
        by (cases got) auto
      with drain_total[of BothDir e ch] obtain xs g' where "drain got [] = Inr (xs, g')"
        by auto
      with gt c True ty wv finish_total show ?thesis
        by (auto simp: HasSameElements_def simp del: checkContainerTypes.simps)
    qed
  qed
qed

section \<open>A run on func elements\<close>

lemma hex_addr: "hex 4865824 = ''4a3f20''"
  by (simp add: hex.simps hexDigit_def)

lemma funcLib_fields:
  "DeepEqual funcLib a b = (a = NilFunc \<and> b = NilFunc)"
  "TypeName funcLib a = ''''"
  "SprintfPlusV funcLib a = sprintFunc a"
  "SprintfPlusVElem funcLib = sprintFunc"
  by (simp_all add: funcLib_def)

lemma unused_func:
  "unusedIndicies funcLib [FuncAt a] [FuncAt a] = ([0], [0])"
  by (simp add: unusedIndicies_def funcLib_fields)

lemma report_func:
  "assertSameArray funcLib (Some [FuncAt 4865824]) (Some [FuncAt 4865824])
     = ''got [() 0x4a3f20] (len 1), wanted [() 0x4a3f20] (len 1); missing elements: [0x4a3f20]; extra elements: [0x4a3f20]''"
  by (simp add: assertSameArray_def Let_def extraOf_def missingOf_def unused_func collect_def
      valueStr_def funcLib_fields hex_addr itoa.simps)

section \<open>The claims\<close>

subsection \<open>C1: permutations are equivalent\<close>

text \<open>
  C1 as stated, for every element sequence, fails where \<^verbatim>\<open>reflect.DeepEqual\<close> does not
  hold between an element and itself.  A slice holding one non-nil func is a permutation
  of itself, and \<^verbatim>\<open>HasSameElements\<close> of the slice and itself fails: the func is reported
  both missing and extra.
\<close>

theorem C1_counterexample:
  "mset [FuncAt 4865824] = mset [FuncAt 4865824]
   \<and> HasSameElements funcLib [] (SliceVal TFunc (Some [FuncAt 4865824])) (SliceVal TFunc (Some [FuncAt 4865824]))
       = Inr (False,
              [Errorf ''got [() 0x4a3f20] (len 1), wanted [() 0x4a3f20] (len 1); missing elements: [0x4a3f20]; extra elements: [0x4a3f20]''],
              SliceVal TFunc (Some [FuncAt 4865824]))"
  by (simp add: HasSameElements_def checkWantAndElem_def finish_def report_func)

text \<open>
  C1, amended.  Let \<open>S\<close> be a sequence on whose elements deep equality is reflexive,
  symmetric and transitive, and \<open>P\<close> a permutation of \<open>S\<close>.  Then the matcher reports
  \<open>S\<close> and \<open>P\<close> equivalent (the empty message), and \<^verbatim>\<open>HasSameElements\<close> of an array or
  slice holding \<open>S\<close> and an array or slice holding \<open>P\<close> succeeds, reporting nothing.
\<close>

theorem C1_permutation:
  assumes "mset P = mset S"
    and "\<forall>x\<in>set S. DeepEqual L x x"
    and "\<forall>x\<in>set S. \<forall>y\<in>set S. DeepEqual L x y \<longrightarrow> DeepEqual L y x"
    and "\<forall>x\<in>set S. \<forall>y\<in>set S. \<forall>z\<in>set S. DeepEqual L x y \<longrightarrow> DeepEqual L y z \<longrightarrow> DeepEqual L x z"
    and "got = ArrayVal e S \<or> got = SliceVal e (Some S)"
    and "want = ArrayVal e P \<or> want = SliceVal e (Some P)"
  shows "assertSameArray L (Some S) (Some P) = '''' \<and> HasSameElements L t got want = Inr (True, t, got)"
  using permutation_equivalent[OF assms(1-4)] HasSameElements_slices[OF assms(5,6), of L t]
  by (simp add: finish_def)

text \<open>
  The scenario of the spec: \<open>got = [1,2,1,2,1,2]\<close> and \<open>want = [1,1,1,2,2,2]\<close>, slices of
  int, are equivalent.
\<close>

theorem C1_permutation_witness:
  "assertSameArray intLib (Some [1,2,1,2,1,2]) (Some [1,1,1,2,2,2]) = ''''
   \<and> HasSameElements intLib [] (SliceVal TInt (Some [1,2,1,2,1,2])) (SliceVal TInt (Some [1,1,1,2,2,2]))
       = Inr (True, [], SliceVal TInt (Some [1,2,1,2,1,2]))"
proof -
  have p: "mset [1,1,1,2,2,2::int] = mset [1,2,1,2,1,2]"
    by simp
  have r: "\<forall>x\<in>set [1,2,1,2,1,2::int]. DeepEqual intLib x x"
    and s: "\<forall>x\<in>set [1,2,1,2,1,2::int]. \<forall>y\<in>set [1,2,1,2,1,2]. DeepEqual intLib x y \<longrightarrow> DeepEqual intLib y x"
    and t: "\<forall>x\<in>set [1,2,1,2,1,2::int]. \<forall>y\<in>set [1,2,1,2,1,2]. \<forall>z\<in>set [1,2,1,2,1,2].
              DeepEqual intLib x y \<longrightarrow> DeepEqual intLib y z \<longrightarrow> DeepEqual intLib x z"
    by (simp_all add: intLib_def)
  from C1_permutation[OF p r s t, of "SliceVal TInt (Some [1,2,1,2,1,2])" TInt
      "SliceVal TInt (Some [1,1,1,2,2,2])" "[]"]
  show ?thesis by simp
qed

subsection \<open>C2: the counts of a match\<close>

text \<open>
  C2.  For all sequences \<open>got\<close> and \<open>want\<close>, the number of cancelled pairs plus the
  number of extra elements is the length of \<open>got\<close>, the number of cancelled pairs plus the
  number of missing elements is the length of \<open>want\<close> (the pairs are one-to-one: as many
  want indices are marked as got indices), and \<^verbatim>\<open>assertSameArray\<close> returns the empty
  message, which is how it reports equivalence, exactly when \<open>extra\<close> and \<open>missing\<close> are
  empty and the lengths agree.
\<close>

theorem C2_counts:
  "matchedCount L got want + length (extraOf L got want) = length got
   \<and> matchedCount L got want + length (missingOf L got want) = length want
   \<and> matchedCount L got want
       = length (filter (\<lambda>i. i = -1) (snd (unusedIndicies L got want)))
   \<and> ((assertSameArray L (Some got) (Some want) = '''')
        = (length (extraOf L got want) = 0 \<and> length (missingOf L got want) = 0
           \<and> length got = length want))"
  using match_counts[of L got want]
  by (auto simp: assertSameArray_empty_iff)

text \<open>
  The scenario of a length mismatch, \<open>[1,2,3]\<close> against \<open>[1,2,3,4]\<close>: three pairs cancel,
  \<open>4\<close> is missing, nothing is extra, and the message is not empty.
\<close>

theorem C2_counts_witness:
  "matchedCount intLib [1,2,3] [1,2,3,4] + length (extraOf intLib [1,2,3] [1,2,3,4]) = 3
   \<and> matchedCount intLib [1,2,3] [1,2,3,4] + length (missingOf intLib [1,2,3] [1,2,3,4]) = 4
   \<and> missingOf intLib [1,2,3] [1,2,3,4] = [4]
   \<and> extraOf intLib [1,2,3] [1,2,3,4] = []
   \<and> assertSameArray intLib (Some [1,2,3]) (Some [1,2,3,4]) \<noteq> ''''"
proof -
  have m: "missingOf intLib [1,2,3] [1,2,3,4] = [4]" and e: "extraOf intLib [1,2,3] [1,2,3,4] = []"
    by code_simp+
  show ?thesis
    using C2_counts[of intLib "[1,2,3]" "[1,2,3,4]"] m e by simp
qed

subsection \<open>C3: duplicates cancel one for one\<close>

text \<open>
  C3.  Matching \<open>got = [1,1,1]\<close> against \<open>want = [1,2,2]\<close> is not equivalent: one pair
  cancels (one element of each side), \<open>extra = [1,1]\<close> and \<open>missing = [2,2]\<close>, and
  \<^verbatim>\<open>HasSameElements\<close> fails with the report of these.
\<close>

theorem C3_duplicates:
  "extraOf intLib [1,1,1] [1,2,2] = [1,1]
   \<and> missingOf intLib [1,1,1] [1,2,2] = [2,2]
   \<and> matchedCount intLib [1,1,1] [1,2,2] = 1
   \<and> HasSameElements intLib [] (SliceVal TInt (Some [1,1,1])) (SliceVal TInt (Some [1,2,2]))
       = Inr (False,
              [Errorf ''got [(int) 1, (int) 1, (int) 1] (len 3), wanted [(int) 1, (int) 2, (int) 2] (len 3); missing elements: [2 2]; extra elements: [1 1]''],
              SliceVal TInt (Some [1,1,1]))"
  by code_simp

subsection \<open>C4: a nil slice and an empty slice\<close>

text \<open>
  C4 as stated fails: \<^verbatim>\<open>HasSameElements\<close> of the nil slice of int and the empty,
  non-nil slice of int succeeds.  \<^verbatim>\<open>arrayValues\<close> tells the nil slice apart (it returns
  nil), but \<^verbatim>\<open>assertSameArray\<close> only takes the length and the elements of what it is
  given.
\<close>

theorem C4_counterexample:
  "HasSameElements intLib [] (SliceVal TInt None) (SliceVal TInt (Some []))
     = Inr (True, [], SliceVal TInt None)"
  by (simp add: HasSameElements_def checkWantAndElem_def finish_def)

text \<open>
  C4, amended.  For slices of one element type, the nil slice against the empty non-nil
  slice is equivalent, in either order, and the nil slice against the nil slice is
  equivalent: the check succeeds and reports nothing.
\<close>

theorem C4_nil_and_empty:
  "HasSameElements L t (SliceVal e None) (SliceVal e (Some [])) = Inr (True, t, SliceVal e None)
   \<and> HasSameElements L t (SliceVal e (Some [])) (SliceVal e None) = Inr (True, t, SliceVal e (Some []))
   \<and> HasSameElements L t (SliceVal e None) (SliceVal e None) = Inr (True, t, SliceVal e None)"
  by (simp add: HasSameElements_def checkWantAndElem_def finish_def)

subsection \<open>C5: which pairs of types are classified as comparable\<close>

text \<open>
  C5.  For types \<open>g\<close> of the got value and \<open>w\<close> of the want value,
  \<^verbatim>\<open>checkContainerTypes\<close> succeeds (and reports nothing) exactly when \<open>g\<close> is an array, a
  slice, or a receive-only or bidirectional channel, \<open>w\<close> is an array or a slice, and the
  element types are the same; it never panics on two types.  A send-only channel as \<open>g\<close>
  is rejected as a non-receiving channel; a \<open>g\<close> that is no array, slice or channel is
  rejected; with an eligible \<open>g\<close>, a \<open>w\<close> that is no array or slice (a channel too) is
  rejected; and with both eligible, different element types are rejected with the
  message that the contained types do not match.  The function reads types only, so the
  contents of the containers play no part.
\<close>

theorem C5_classification:
  "((checkContainerTypes t (Some g) (Some w) = Inr (True, t'))
      = ((KindOf g = KArray \<or> KindOf g = KSlice \<or> (\<exists>e. g = TChan RecvDir e) \<or> (\<exists>e. g = TChan BothDir e))
         \<and> (KindOf w = KArray \<or> KindOf w = KSlice) \<and> Elem g = Elem w \<and> t' = t))
   \<and> (\<exists>b r. checkContainerTypes t (Some g) (Some w) = Inr (b, r))
   \<and> checkContainerTypes t (Some (TChan SendDir e)) (Some w)
        = Inr (False, t @ [NonReceivingChannel (TChan SendDir e)])
   \<and> (KindOf g \<noteq> KArray \<and> KindOf g \<noteq> KSlice \<and> KindOf g \<noteq> KChan \<longrightarrow>
        checkContainerTypes t (Some g) (Some w) = Inr (False, t @ [NotArraySliceOrChan g]))
   \<and> ((KindOf g = KArray \<or> KindOf g = KSlice \<or> g = TChan RecvDir e \<or> g = TChan BothDir e)
        \<and> KindOf w \<noteq> KArray \<and> KindOf w \<noteq> KSlice \<longrightarrow>
        (\<exists>ge. Elem g = Inr ge
           \<and> checkContainerTypes t (Some g) (Some w) = Inr (False, t @ [WantNotArrayOrSlice g ge w])))
   \<and> ((KindOf g = KArray \<or> KindOf g = KSlice \<or> g = TChan RecvDir e \<or> g = TChan BothDir e)
        \<and> (KindOf w = KArray \<or> KindOf w = KSlice) \<and> Elem g \<noteq> Elem w \<longrightarrow>
        checkContainerTypes t (Some g) (Some w) = Inr (False, t @ [ContainedTypesDoNotMatch g w]))"
proof -
  have a: "(KindOf g = KArray \<or> KindOf g = KSlice \<or> g = TChan RecvDir e \<or> g = TChan BothDir e)
        \<Longrightarrow> \<exists>ge. Elem g = Inr ge"
    by (cases g) auto
  show ?thesis
    using checkContainerTypes_ok_iff[of t g w t'] checkContainerTypes_no_panic[of t g w]
      checkContainerTypes_sendonly[of t e w] checkContainerTypes_got_other[of g t w]
      checkContainerTypes_want_other[of g e _ w t] checkContainerTypes_mismatch[of g e w t] a
    by blast
qed

text \<open>
  The cases of the test \<^verbatim>\<open>TestHasSameElementsInternals\<close>: a slice of string against a
  slice of int, channels against an array and a slice, a send-only channel, a string,
  and a channel as the want side.
\<close>

theorem C5_classification_witness:
  "checkContainerTypes [] (Some (TSlice TString)) (Some (TSlice TInt))
     = Inr (False, [ContainedTypesDoNotMatch (TSlice TString) (TSlice TInt)])
   \<and> checkContainerTypes [] (Some (TChan BothDir TInt)) (Some (TArray 3 TInt)) = Inr (True, [])
   \<and> checkContainerTypes [] (Some (TChan RecvDir TString)) (Some (TSlice TString)) = Inr (True, [])
   \<and> checkContainerTypes [] (Some (TChan SendDir TString)) (Some (TSlice TString))
       = Inr (False, [NonReceivingChannel (TChan SendDir TString)])
   \<and> checkContainerTypes [] (Some TString) (Some (TSlice TString))
       = Inr (False, [NotArraySliceOrChan TString])
   \<and> checkContainerTypes [] (Some (TSlice TString)) (Some (TChan BothDir TString))
       = Inr (False, [WantNotArrayOrSlice (TSlice TString) TString (TChan BothDir TString)])"
  using C5_classification[of "[]" "TSlice TString" "TSlice TInt" "[]" TString]
    C5_classification[of "[]" "TChan BothDir TInt" "TArray 3 TInt" "[]" TInt]
    C5_classification[of "[]" "TChan RecvDir TString" "TSlice TString" "[]" TString]
    C5_classification[of "[]" "TString" "TSlice TString" "[]" TString]
    C5_classification[of "[]" "TSlice TString" "TChan BothDir TString" "[]" TString]
  by (simp add: checkWantAndElem_def)

subsection \<open>C6: draining a channel\<close>

text \<open>
  C6.  Let \<open>got\<close> be a receive-only or bidirectional channel holding \<open>xs\<close>, closed or
  not.  The drain returns exactly \<open>xs\<close>, in receive order, and leaves the channel empty;
  each receive attempt returns at once, taking the oldest value, and the attempt on the
  empty channel (where a receive would block, or the channel is closed) ends the loop;
  a second drain returns the empty sequence.  \<^verbatim>\<open>HasSameElements\<close> matches the drained
  sequence against the wanted elements.
\<close>

theorem C6_channel_drain:
  assumes "d = RecvDir \<or> d = BothDir"
    and "got = ChanVal d e (Some \<lparr>buffer = xs, closed = cl\<rparr>)"
    and "drained = ChanVal d e (Some \<lparr>buffer = [], closed = cl\<rparr>)"
    and "want = ArrayVal e ws \<or> want = SliceVal e (Some ws)"
  shows "drain got [] = Inr (xs, drained)
     \<and> drain drained [] = Inr ([], drained)
     \<and> TryRecv drained = Inr (None, drained)
     \<and> TryRecv (ChanVal d e (Some \<lparr>buffer = x # xs, closed = cl\<rparr>)) = Inr (Some x, got)
     \<and> HasSameElements L t got want = finish t (assertSameArray L (Some xs) (Some ws)) drained
     \<and> HasSameElements L t drained want = finish t (assertSameArray L (Some []) (Some ws)) drained"
  using assms drain_chan[of d e "\<lparr>buffer = xs, closed = cl\<rparr>" "[]"]
    drain_chan[of d e "\<lparr>buffer = [], closed = cl\<rparr>" "[]"]
    HasSameElements_chan[of d want e ws L t "\<lparr>buffer = xs, closed = cl\<rparr>"]
    HasSameElements_chan[of d want e ws L t "\<lparr>buffer = [], closed = cl\<rparr>"]
  by auto

text \<open>
  The closed channel buffered with \<open>a\<close>, \<open>b\<close>, \<open>c\<close> of the test: the first check against
  \<open>[a, b, c]\<close> succeeds, a second check on the same channel finds no element.
\<close>

theorem C6_channel_drain_witness:
  "drain (ChanVal BothDir TString (Some \<lparr>buffer = [''a'', ''b'', ''c''], closed = True\<rparr>)) []
     = Inr ([''a'', ''b'', ''c''], ChanVal BothDir TString (Some \<lparr>buffer = [], closed = True\<rparr>))
   \<and> drain (ChanVal BothDir TString (Some \<lparr>buffer = [], closed = True\<rparr>)) []
     = Inr ([] :: string list, ChanVal BothDir TString (Some \<lparr>buffer = [], closed = True\<rparr>))
   \<and> HasSameElements stringLib []
        (ChanVal BothDir TString (Some \<lparr>buffer = [''a'', ''b'', ''c''], closed = True\<rparr>))
        (SliceVal TString (Some [''a'', ''b'', ''c'']))
     = Inr (True, [], ChanVal BothDir TString (Some \<lparr>buffer = [], closed = True\<rparr>))
   \<and> HasSameElements stringLib []
        (ChanVal BothDir TString (Some \<lparr>buffer = [], closed = True\<rparr>))
        (SliceVal TString (Some [''a'', ''b'', ''c'']))
     = Inr (False,
            [Errorf ''got [] (len 0), wanted [(string) a, (string) b, (string) c] (len 3); missing elements: [a b c]''],
            ChanVal BothDir TString (Some \<lparr>buffer = [], closed = True\<rparr>))"
proof -
  have a: "assertSameArray stringLib (Some [''a'', ''b'', ''c'']) (Some [''a'', ''b'', ''c'']) = ''''"
    and b: "assertSameArray stringLib (Some []) (Some [''a'', ''b'', ''c''])
            = ''got [] (len 0), wanted [(string) a, (string) b, (string) c] (len 3); missing elements: [a b c]''"
    by code_simp+
  from C6_channel_drain[of BothDir
      "ChanVal BothDir TString (Some \<lparr>buffer = [''a'', ''b'', ''c''], closed = True\<rparr>)"
      TString "[''a'', ''b'', ''c'']" True
      "ChanVal BothDir TString (Some \<lparr>buffer = [], closed = True\<rparr>)"
      "SliceVal TString (Some [''a'', ''b'', ''c''])" "[''a'', ''b'', ''c'']" _ stringLib "[]"] a b
  show ?thesis
    by (simp add: finish_def)
qed

subsection \<open>C7: the failure modes\<close>

text \<open>
  C7 fails on the untyped nil: \<^verbatim>\<open>reflect.TypeOf(nil)\<close> is the nil \<^verbatim>\<open>reflect.Type\<close>, and
  \<^verbatim>\<open>checkContainerTypes\<close> calls \<^verbatim>\<open>Kind()\<close> on both types before anything else, so
  \<^verbatim>\<open>HasSameElements\<close> panics when got or want is the untyped nil.  (On typed values it
  returns, by \<open>HasSameElements_typed_total\<close>.)
\<close>

theorem C7_untyped_nil_panics:
  "HasSameElements intLib [] UntypedNil (SliceVal TInt (Some [1])) = Inl NilPointerDereference
   \<and> HasSameElements intLib [] (SliceVal TInt (Some [1])) UntypedNil = Inl NilPointerDereference"
  by (simp add: HasSameElements_def)

subsection \<open>C8: the report of a mismatch\<close>

text \<open>
  C8.  When the lengths agree and nothing is extra or missing, \<^verbatim>\<open>assertSameArray\<close>
  returns the empty message: no report.  Otherwise the report lists all of \<open>got\<close>, its
  length, all of \<open>want\<close>, its length, then the missing elements if there are any, then
  the extra elements if there are any.  It is a function of the two sequences, and
  \<open>extra\<close> and \<open>missing\<close> are subsequences of \<open>got\<close> and \<open>want\<close>: their elements stand in
  the order of the original sequences.
\<close>

theorem C8_report:
  "assertSameArray L (Some got) (Some want) =
     (if length got = length want \<and> extraOf L got want = [] \<and> missingOf L got want = [] then ''''
      else ''got ['' @ Join (map (valueStr L) got) '', '' @ ''] (len '' @ itoa (length got)
           @ ''), wanted ['' @ Join (map (valueStr L) want) '', '' @ ''] (len '' @ itoa (length want)
           @ '')''
           @ (if missingOf L got want = [] then ''''
              else ''; missing elements: ['' @ Join (map (SprintfPlusVElem L) (missingOf L got want)) '' '' @ '']'')
           @ (if extraOf L got want = [] then ''''
              else ''; extra elements: ['' @ Join (map (SprintfPlusVElem L) (extraOf L got want)) '' '' @ '']''))
   \<and> subseq (extraOf L got want) got
   \<and> subseq (missingOf L got want) want"
  using subseq_extra_missing[of L got want]
  by (simp add: assertSameArray_def Let_def)

text \<open>
  The scenario of two sub-ranges, \<open>got = [4,5,6,5,4,3]\<close> and \<open>want = [4,3,2,1,1,2]\<close>: the got
  elements \<open>4\<close> and \<open>3\<close> cancel the first two wanted elements, and what is left of each
  side is listed in the order of that side.
\<close>

theorem C8_report_witness:
  "assertSameArray intLib (Some [4,5,6,5,4,3]) (Some [4,3,2,1,1,2])
     = ''got [(int) 4, (int) 5, (int) 6, (int) 5, (int) 4, (int) 3] (len 6), wanted [(int) 4, (int) 3, (int) 2, (int) 1, (int) 1, (int) 2] (len 6); missing elements: [2 1 1 2]; extra elements: [5 6 5 4]''
   \<and> extraOf intLib [4,5,6,5,4,3] [4,3,2,1,1,2] = [5,6,5,4]
   \<and> missingOf intLib [4,5,6,5,4,3] [4,3,2,1,1,2] = [2,1,1,2]
   \<and> subseq [5,6,5,4] [4,5,6,5,4,3::int]
   \<and> subseq [2,1,1,2] [4,3,2,1,1,2::int]"
proof -
  have e: "extraOf intLib [4,5,6,5,4,3] [4,3,2,1,1,2] = [5,6,5,4]"
    and m: "missingOf intLib [4,5,6,5,4,3] [4,3,2,1,1,2] = [2,1,1,2]"
    by code_simp+
  have r: "assertSameArray intLib (Some [4,5,6,5,4,3]) (Some [4,3,2,1,1,2])
     = ''got [(int) 4, (int) 5, (int) 6, (int) 5, (int) 4, (int) 3] (len 6), wanted [(int) 4, (int) 3, (int) 2, (int) 1, (int) 1, (int) 2] (len 6); missing elements: [2 1 1 2]; extra elements: [5 6 5 4]''"
    by code_simp
  from C8_report[of intLib "[4,5,6,5,4,3]" "[4,3,2,1,1,2]"] e m r show ?thesis
    by simp
qed

subsection \<open>C9: how an element is rendered\<close>

text \<open>
  C9 fails on string elements.  \<^verbatim>\<open>assertSameArray\<close> hands \<^verbatim>\<open>stringify\<close> a
  \<^verbatim>\<open>reflect.Value\<close> for each listed element and the whole \<^verbatim>\<open>[]interface{}\<close> for the missing
  and extra clauses, never a string, so the quoting branch of \<^verbatim>\<open>stringify\<close> is not taken:
  for \<open>got = ["a"]\<close> and \<open>want = ["b"]\<close> the report shows \<open>a\<close> and \<open>b\<close> bare, where
  \<^verbatim>\<open>stringify\<close> of the string \<open>a\<close> itself is the backquoted literal.
\<close>

theorem C9_strings_unquoted:
  "HasSameElements stringLib [] (SliceVal TString (Some [''a''])) (SliceVal TString (Some [''b'']))
     = Inr (False,
            [Errorf ''got [(string) a] (len 1), wanted [(string) b] (len 1); missing elements: [b]; extra elements: [a]''],
            SliceVal TString (Some [''a'']))
   \<and> stringify stringLib (IString ''a'') = [CHR 0x60, CHR ''a'', CHR 0x60]
   \<and> valueStr stringLib ''a'' = ''(string) a''"
  by code_simp

subsection \<open>C10: a nil channel\<close>

text \<open>
  C10.  Let \<open>got\<close> be the nil channel of a receive-only or bidirectional channel type.
  The first receive attempt reports at once that no value is there, so the drain returns
  the empty sequence and no panic; and \<^verbatim>\<open>HasSameElements\<close> of \<open>got\<close> and an empty array
  or an empty or nil slice of the same element type succeeds, reporting nothing.
\<close>

theorem C10_nil_channel:
  assumes "d = RecvDir \<or> d = BothDir"
    and "got = ChanVal d e None"
    and "want = ArrayVal e [] \<or> want = SliceVal e (Some []) \<or> want = SliceVal e None"
  shows "TryRecv got = Inr (None, got)
         \<and> drain got [] = Inr ([], got)
         \<and> HasSameElements L t got want = Inr (True, t, got)"
  using assms
  by (auto simp: HasSameElements_def checkWantAndElem_def drain_nil finish_def)

text \<open>The nil receive-only channel of string against the empty slice of string.\<close>

theorem C10_nil_channel_witness:
  "TryRecv (ChanVal RecvDir TString None) = Inr (None :: string option, ChanVal RecvDir TString None)
   \<and> drain (ChanVal RecvDir TString None) [] = Inr ([] :: string list, ChanVal RecvDir TString None)
   \<and> HasSameElements stringLib [] (ChanVal RecvDir TString None) (SliceVal TString (Some []))
       = Inr (True, [], ChanVal RecvDir TString None)"
  using C10_nil_channel[of RecvDir "ChanVal RecvDir TString None" TString "SliceVal TString (Some [])" stringLib "[]"]
  by simp

end
